theory Spec2Isabelle
  imports Complex_Main
begin

section \<open>Strings of the host language\<close>

text \<open>
  The program is TypeScript; its strings are sequences of code units. A string is
  modelled as a \<open>char list\<close>, one \<open>char\<close> per code unit, which covers the code units
  below 256. In that range the white space of \<open>String.prototype.trim\<close>, of the
  regular-expression class \<open>\s\<close> and of the string-to-number conversion is the same
  set: TAB, LF, VT, FF, CR, SPACE and NBSP.
\<close>

definition isWhiteSpace :: "char \<Rightarrow> bool" where
  "isWhiteSpace c \<longleftrightarrow>
     c = CHR 0x09 \<or> c = CHR 0x0A \<or> c = CHR 0x0B \<or> c = CHR 0x0C \<or> c = CHR 0x0D
     \<or> c = CHR 0x20 \<or> c = CHR 0xA0"

definition trim :: "string \<Rightarrow> string" where
  "trim s = rev (dropWhile isWhiteSpace (rev (dropWhile isWhiteSpace s)))"

definition startsWith :: "string \<Rightarrow> string \<Rightarrow> bool" where
  \<comment> \<open>\<open>s.startsWith(p)\<close>\<close>
  "startsWith p s \<longleftrightarrow> take (length p) s = p"

definition endsWith :: "string \<Rightarrow> string \<Rightarrow> bool" where
  \<comment> \<open>\<open>s.endsWith(p)\<close>\<close>
  "endsWith p s \<longleftrightarrow> length p \<le> length s \<and> drop (length s - length p) s = p"

definition includesChar :: "char \<Rightarrow> string \<Rightarrow> bool" where
  \<comment> \<open>\<open>s.includes(c)\<close> for a one-character needle\<close>
  "includesChar c s \<longleftrightarrow> c \<in> set s"

definition substring :: "nat \<Rightarrow> nat \<Rightarrow> string \<Rightarrow> string" where
  \<comment> \<open>\<open>s.substring(a, b)\<close>: both indices are clamped to the length, and swapped
      when the first is the larger\<close>
  "substring a b s =
     (let a' = min a (length s); b' = min b (length s);
          lo = min a' b'; hi = max a' b'
      in take (hi - lo) (drop lo s))"

fun splitChar :: "char \<Rightarrow> string \<Rightarrow> string list" where
  \<comment> \<open>\<open>s.split(sep)\<close> for a one-character separator: never the empty array\<close>
  "splitChar sep [] = [[]]"
| "splitChar sep (c # cs) =
     (if c = sep then [] # splitChar sep cs
      else (case splitChar sep cs of
              [] \<Rightarrow> [[c]]
            | x # xs \<Rightarrow> (c # x) # xs))"

definition splitCharLimit :: "char \<Rightarrow> nat \<Rightarrow> string \<Rightarrow> string list" where
  \<comment> \<open>\<open>s.split(sep, limit)\<close>: the string is split at every separator and the
      array is cut after \<open>limit\<close> elements; the rest of the string is discarded\<close>
  "splitCharLimit sep limit s = take limit (splitChar sep s)"

definition elemAt :: "'a list \<Rightarrow> nat \<Rightarrow> 'a option" where
  \<comment> \<open>array read \<open>xs[i]\<close>; \<open>None\<close> is \<open>undefined\<close>\<close>
  "elemAt xs i = (if i < length xs then Some (xs ! i) else None)"

section \<open>String to number\<close>

text \<open>
  \<open>Number(value)\<close> applied to a string parses the StringNumericLiteral grammar of the
  language: optional white space around either nothing (the number 0), a signed decimal
  literal with optional fraction and exponent, \<open>Infinity\<close> with optional sign, or an
  unsigned binary, octal or hexadecimal integer literal. Anything else is NaN.
  A finite result is represented by the exact mathematical value of the literal; the
  engine stores the nearest binary64 value, which is that same value for every integer
  of magnitude up to \<open>2 ^ 53\<close>. The zero of a literal such as \<open>-0\<close> is \<open>Finite 0\<close>.
  Beyond that the stored value is a rounding of the one kept here: an integer above
  \<open>2 ^ 53\<close> may move to a neighbour, a literal such as \<open>1e400\<close> is stored as an infinity and
  one such as \<open>1e-400\<close> as zero. Whether the result is NaN does not depend on the rounding.
\<close>

datatype jsnumber = NaN | PosInfinity | NegInfinity | Finite rat

definition isNaN :: "jsnumber \<Rightarrow> bool" where
  "isNaN n \<longleftrightarrow> n = NaN"

definition isDecimalDigit :: "char \<Rightarrow> bool" where
  "isDecimalDigit c \<longleftrightarrow> c \<in> set ''0123456789''"

definition isHexDigit :: "char \<Rightarrow> bool" where
  "isHexDigit c \<longleftrightarrow> c \<in> set ''0123456789abcdefABCDEF''"

definition isOctalDigit :: "char \<Rightarrow> bool" where
  "isOctalDigit c \<longleftrightarrow> c \<in> set ''01234567''"

definition isBinaryDigit :: "char \<Rightarrow> bool" where
  "isBinaryDigit c \<longleftrightarrow> c \<in> set ''01''"

definition digitValue :: "char \<Rightarrow> int" where
  "digitValue c =
     (if c \<in> set ''abcdef'' then of_char c - 87
      else if c \<in> set ''ABCDEF'' then of_char c - 55
      else of_char c - 48)"

definition radixValue :: "int \<Rightarrow> string \<Rightarrow> int" where
  "radixValue b ds = foldl (\<lambda>a c. b * a + digitValue c) 0 ds"

definition digitsOf :: "(char \<Rightarrow> bool) \<Rightarrow> string \<Rightarrow> bool" where
  \<comment> \<open>one or more digits of the given class, and nothing else\<close>
  "digitsOf isDigit ds \<longleftrightarrow> ds \<noteq> [] \<and> list_all isDigit ds"

definition pow10 :: "int \<Rightarrow> rat" where
  "pow10 k = (if 0 \<le> k then 10 ^ nat k else 1 / 10 ^ nat (- k))"

definition exponentPart :: "string \<Rightarrow> int option" where
  \<comment> \<open>what follows the mantissa: nothing, or \<open>e\<close>/\<open>E\<close>, an optional sign and digits\<close>
  "exponentPart r =
     (case r of
        [] \<Rightarrow> Some 0
      | c # r' \<Rightarrow>
          if c = CHR ''e'' \<or> c = CHR ''E'' then
            (case r' of
               [] \<Rightarrow> None
             | s # ds \<Rightarrow>
                 if s = CHR ''+'' then
                   (if digitsOf isDecimalDigit ds then Some (radixValue 10 ds) else None)
                 else if s = CHR ''-'' then
                   (if digitsOf isDecimalDigit ds then Some (- radixValue 10 ds) else None)
                 else
                   (if digitsOf isDecimalDigit r' then Some (radixValue 10 r') else None))
          else None)"

definition strUnsignedDecimalLiteral :: "string \<Rightarrow> jsnumber" where
  "strUnsignedDecimalLiteral s =
     (if s = ''Infinity'' then PosInfinity
      else
        let ip = takeWhile isDecimalDigit s;
            r1 = dropWhile isDecimalDigit s;
            fp = (case r1 of
                    [] \<Rightarrow> []
                  | c # r \<Rightarrow> if c = CHR ''.'' then takeWhile isDecimalDigit r else []);
            r2 = (case r1 of
                    [] \<Rightarrow> []
                  | c # r \<Rightarrow> if c = CHR ''.'' then dropWhile isDecimalDigit r else r1)
        in if ip = [] \<and> fp = [] then NaN
           else (case exponentPart r2 of
                   None \<Rightarrow> NaN
                 | Some e \<Rightarrow>
                     Finite (of_int (radixValue 10 (ip @ fp)) * pow10 (e - int (length fp)))))"

definition nonDecimalIntegerLiteral :: "string \<Rightarrow> jsnumber option" where
  \<comment> \<open>\<open>0x\<close>, \<open>0o\<close> and \<open>0b\<close> literals, in either case of the letter, without sign\<close>
  "nonDecimalIntegerLiteral s =
     (case s of
        z # p # ds \<Rightarrow>
          if z \<noteq> CHR ''0'' then None
          else if (p = CHR ''x'' \<or> p = CHR ''X'') \<and> digitsOf isHexDigit ds
            then Some (Finite (of_int (radixValue 16 ds)))
          else if (p = CHR ''o'' \<or> p = CHR ''O'') \<and> digitsOf isOctalDigit ds
            then Some (Finite (of_int (radixValue 8 ds)))
          else if (p = CHR ''b'' \<or> p = CHR ''B'') \<and> digitsOf isBinaryDigit ds
            then Some (Finite (of_int (radixValue 2 ds)))
          else None
      | _ \<Rightarrow> None)"

definition negate :: "jsnumber \<Rightarrow> jsnumber" where
  "negate n =
     (case n of
        NaN \<Rightarrow> NaN
      | PosInfinity \<Rightarrow> NegInfinity
      | NegInfinity \<Rightarrow> PosInfinity
      | Finite q \<Rightarrow> Finite (- q))"

definition Number :: "string \<Rightarrow> jsnumber" where
  "Number s =
     (let t = trim s
      in case t of
           [] \<Rightarrow> Finite 0
         | c # r \<Rightarrow>
             (case nonDecimalIntegerLiteral t of
                Some n \<Rightarrow> n
              | None \<Rightarrow>
                  if c = CHR ''+'' then strUnsignedDecimalLiteral r
                  else if c = CHR ''-'' then negate (strUnsignedDecimalLiteral r)
                  else strUnsignedDecimalLiteral t))"

section \<open>Property values and property mappings\<close>

text \<open>
  \<open>props\<close> is declared as \<open>{ [key: string]: string | number | boolean }\<close>. It is an
  association list in insertion order; a key that is written again keeps its place and
  takes the new value. Reading a key that is absent gives \<open>undefined\<close>, here \<open>None\<close>.
  The object is created by the literal \<open>{}\<close>, so an assignment to the key
  \<open>__proto__\<close> goes to the inherited setter, which ignores a string, number or boolean:
  no property is stored. None of \<open>name\<close>, \<open>type\<close>, \<open>server\<close>, \<open>port\<close> is inherited.
\<close>

datatype jsvalue = Str string | Num jsnumber | Bool bool

type_synonym props = "(string \<times> jsvalue) list"

fun assign :: "props \<Rightarrow> string \<Rightarrow> jsvalue \<Rightarrow> props" where
  "assign [] k v = [(k, v)]"
| "assign ((k', v') # ps) k v =
     (if k' = k then (k, v) # ps else (k', v') # assign ps k v)"

definition setProp :: "props \<Rightarrow> string \<Rightarrow> jsvalue \<Rightarrow> props" where
  \<comment> \<open>\<open>props[key] = value\<close>\<close>
  "setProp ps k v = (if k = ''__proto__'' then ps else assign ps k v)"

definition getProp :: "props \<Rightarrow> string \<Rightarrow> jsvalue option" where
  \<comment> \<open>\<open>props.key\<close>\<close>
  "getProp ps k = map_of ps k"

fun truthy :: "jsvalue option \<Rightarrow> bool" where
  \<comment> \<open>the truth value of an operand of \<open>&&\<close>\<close>
  "truthy None = False"
| "truthy (Some (Str s)) = (s \<noteq> [])"
| "truthy (Some (Bool b)) = b"
| "truthy (Some (Num n)) = (n \<noteq> NaN \<and> n \<noteq> Finite 0)"

section \<open>The two regular expressions\<close>

text \<open>
  The record pattern is \<^verbatim>\<open>/^- \{\s*([^}]+)\s*\}$/\<close>. Neither \<open>\s\<close> nor \<open>[^}]\<close> matches
  a closing brace, so the subject matches exactly when it is \<open>- {\<close>, a non-empty inner
  part without closing brace, and a final \<open>}\<close>. The first \<open>\s*\<close> is greedy and takes the
  leading white space of the inner part; the group is greedy and takes all the rest, so
  trailing white space belongs to the group and the second \<open>\s*\<close> is empty. When the
  inner part is white space only, the first \<open>\s*\<close> gives back one character, and the
  group is the last character of the inner part. The result is the array of the whole
  match and the group, or \<open>null\<close>, here \<open>None\<close>.
\<close>

definition matchNode :: "string \<Rightarrow> string list option" where
  "matchNode t =
     (let inner = take (length t - 4) (drop 3 t)
      in if 5 \<le> length t \<and> startsWith ''- {'' t \<and> endsWith ''}'' t
            \<and> CHR ''}'' \<notin> set inner
         then Some [t, (case dropWhile isWhiteSpace inner of
                          [] \<Rightarrow> [last inner]
                        | c # cs \<Rightarrow> c # cs)]
         else None)"

text \<open>
  The separator pattern is a comma, \<open>\s*\<close>, and a lookahead to the end of the subject:
  \<^verbatim>\<open>(?=(?:[^"']*(?:"[^"']*")[^"']*|[^"']*(?:'[^']*')[^"']*)*[^"']*$)\<close>.
  The lookahead accepts the strings made of characters that are no quote, of
  double-quoted spans without any quote inside, and of single-quoted spans without
  single quote inside. \<open>lookahead\<close> reads such a string from the left: \<open>Outside\<close> every
  span, inside a double-quoted or inside a single-quoted one.
\<close>

datatype quoting = Outside | InDouble | InSingle

fun lookahead :: "quoting \<Rightarrow> string \<Rightarrow> bool" where
  "lookahead q [] = (q = Outside)"
| "lookahead Outside (c # cs) =
     (if c = CHR 0x22 then lookahead InDouble cs
      else if c = CHR 0x27 then lookahead InSingle cs
      else lookahead Outside cs)"
| "lookahead InDouble (c # cs) =
     (if c = CHR 0x22 then lookahead Outside cs
      else if c = CHR 0x27 then False
      else lookahead InDouble cs)"
| "lookahead InSingle (c # cs) =
     (if c = CHR 0x27 then lookahead Outside cs
      else lookahead InSingle cs)"

text \<open>
  \<open>matchSeparator\<close> applies the whole separator pattern at the start of a string and
  gives what is left after the match. The greedy \<open>\s*\<close> takes all the white space after
  the comma before the lookahead is tried.
\<close>

definition matchSeparator :: "string \<Rightarrow> string option" where
  "matchSeparator s =
     (case s of
        [] \<Rightarrow> None
      | c # cs \<Rightarrow>
          if c = CHR '','' \<and> lookahead Outside (dropWhile isWhiteSpace cs)
          then Some (dropWhile isWhiteSpace cs)
          else None)"

text \<open>
  \<open>split\<close> with a pattern tries the pattern at each position in turn, from the end of
  the last separator. Where it matches, the text collected so far is a piece and the
  search goes on after the match; otherwise the character joins the piece. The text
  after the last separator is the last piece.

  \<open>splitPairs\<close> gives the pieces that \<open>split\<close> returns. The engine finds them by
  backtracking through the starred group of the lookahead, which can be read in many ways
  over the same text: on a body with an unbalanced quote its work grows exponentially
  with the number of quoted values, and on a long body it can exhaust its stack and raise
  a RangeError. Neither the running time nor the stack of the engine is part of this model.
\<close>

function splitPairs :: "string \<Rightarrow> string \<Rightarrow> string list" where
  "splitPairs piece [] = [piece]"
| "splitPairs piece (c # cs) =
     (case matchSeparator (c # cs) of
        Some rest \<Rightarrow> piece # splitPairs [] rest
      | None \<Rightarrow> splitPairs (piece @ [c]) cs)"
  by pat_completeness auto
termination
  by (relation "measure (\<lambda>(piece, s). length s)")
     (auto simp: matchSeparator_def length_dropWhile_le less_Suc_eq_le split: if_splits)

section \<open>parseClashNodes\<close>

datatype error = TypeError

record scan_state =
  inProxiesSection :: bool
  nodes :: "props list"
  warnings :: "(props \<times> string) list"

definition stripQuotes :: "string \<Rightarrow> string" where
  \<comment> \<open>remove quotes if present (single or double)\<close>
  "stripQuotes v =
     (if (startsWith [CHR 0x22] v \<and> endsWith [CHR 0x22] v)
         \<or> (startsWith [CHR 0x27] v \<and> endsWith [CHR 0x27] v)
      then substring 1 (length v - 1) v
      else v)"

definition convertType :: "string \<Rightarrow> string \<Rightarrow> jsvalue" where
  \<comment> \<open>type conversion for common types\<close>
  "convertType key v =
     (if key = ''port'' \<and> \<not> isNaN (Number v) then Num (Number v)
      else if v = ''true'' then Bool True
      else if v = ''false'' then Bool False
      else Str v)"

definition parsePair :: "props \<Rightarrow> string \<Rightarrow> error + props" where
  \<comment> \<open>the body of the loop over the pairs; \<open>.trim()\<close> of \<open>undefined\<close> is a TypeError\<close>
  "parsePair ps pair =
     (let parts = splitCharLimit CHR '':'' 2 pair
      in if length parts = 2 then
           (case elemAt parts 0 of
              None \<Rightarrow> Inl TypeError
            | Some p0 \<Rightarrow>
                (case elemAt parts 1 of
                   None \<Rightarrow> Inl TypeError
                 | Some p1 \<Rightarrow>
                     let key = trim p0;
                         v = stripQuotes (trim p1)
                     in Inr (setProp ps key (convertType key v))))
         else Inr ps)"

fun parsePairs :: "props \<Rightarrow> string list \<Rightarrow> error + props" where
  "parsePairs ps [] = Inr ps"
| "parsePairs ps (pair # pairs) =
     (case parsePair ps pair of
        Inl e \<Rightarrow> Inl e
      | Inr ps' \<Rightarrow> parsePairs ps' pairs)"

definition isComplete :: "props \<Rightarrow> bool" where
  \<comment> \<open>\<open>props.name && props.type && props.server && props.port !== undefined\<close>\<close>
  "isComplete ps \<longleftrightarrow>
     truthy (getProp ps ''name'') \<and> truthy (getProp ps ''type'')
     \<and> truthy (getProp ps ''server'') \<and> getProp ps ''port'' \<noteq> None"

definition parseNode :: "scan_state \<Rightarrow> string \<Rightarrow> string \<Rightarrow> error + scan_state" where
  \<comment> \<open>a matched line: its pairs, then the record or the warning\<close>
  "parseNode st trimmedLine propertiesString =
     (case parsePairs [] (splitPairs [] propertiesString) of
        Inl e \<Rightarrow> Inl e
      | Inr ps \<Rightarrow>
          if isComplete ps then Inr (st\<lparr>nodes := nodes st @ [ps]\<rparr>)
          else Inr (st\<lparr>warnings := warnings st @ [(ps, trimmedLine)]\<rparr>))"

definition leavesSection :: "string \<Rightarrow> bool" where
  \<comment> \<open>the heuristic for the end of the section, on the trimmed line\<close>
  "leavesSection trimmedLine \<longleftrightarrow>
     (\<not> startsWith ''-'' trimmedLine \<and> trimmedLine \<noteq> [] \<and> \<not> startsWith ''#'' trimmedLine)
     \<and> (includesChar CHR '':'' trimmedLine \<and> \<not> startsWith '' '' trimmedLine)"

definition parseLine :: "scan_state \<Rightarrow> string \<Rightarrow> error + scan_state" where
  \<comment> \<open>the body of the loop over the lines\<close>
  "parseLine st line =
     (let trimmedLine = trim line
      in if startsWith ''proxies:'' trimmedLine then Inr (st\<lparr>inProxiesSection := True\<rparr>)
         else if inProxiesSection st then
           (if leavesSection trimmedLine then Inr (st\<lparr>inProxiesSection := False\<rparr>)
            else
              (case matchNode trimmedLine of
                 None \<Rightarrow> Inr st
               | Some nodeMatch \<Rightarrow>
                   (case elemAt nodeMatch 1 of
                      None \<Rightarrow> Inr st
                    | Some propertiesString \<Rightarrow>
                        if propertiesString = [] then Inr st
                        else parseNode st trimmedLine propertiesString)))
         else Inr st)"

fun parseLines :: "scan_state \<Rightarrow> string list \<Rightarrow> error + scan_state" where
  "parseLines st [] = Inr st"
| "parseLines st (line # lines) =
     (case parseLine st line of
        Inl e \<Rightarrow> Inl e
      | Inr st' \<Rightarrow> parseLines st' lines)"

definition initial :: scan_state where
  "initial = \<lparr>inProxiesSection = False, nodes = [], warnings = []\<rparr>"

definition parseClashNodes :: "string \<Rightarrow> error + props list" where
  "parseClashNodes configContent =
     (case parseLines initial (splitChar CHR ''\<newline>'' configContent) of
        Inl e \<Rightarrow> Inl e
      | Inr st \<Rightarrow> Inr (nodes st))"

section \<open>The required fields, as the specification words them\<close>

text \<open>
  A required text field is present and non-empty: a non-empty string, or the boolean
  \<open>true\<close> that the literal \<open>true\<close> is converted to. \<open>port\<close> only has to be defined.
\<close>

definition nonEmptyField :: "props \<Rightarrow> string \<Rightarrow> bool" where
  "nonEmptyField n k =
     (case map_of n k of
        None \<Rightarrow> False
      | Some (Str s) \<Rightarrow> s \<noteq> []
      | Some (Bool b) \<Rightarrow> b
      | Some (Num x) \<Rightarrow> False)"

definition requiredFields :: "props \<Rightarrow> bool" where
  "requiredFields n \<longleftrightarrow>
     nonEmptyField n ''name'' \<and> nonEmptyField n ''type'' \<and> nonEmptyField n ''server''
     \<and> map_of n ''port'' \<noteq> None"

definition numbersOnlyAtPort :: "props \<Rightarrow> bool" where
  \<comment> \<open>only the key \<open>port\<close> ever holds a number\<close>
  "numbersOnlyAtPort ps \<longleftrightarrow> (\<forall>k x. map_of ps k = Some (Num x) \<longrightarrow> k = ''port'')"

section \<open>The two patterns, as sets of strings\<close>

text \<open>
  The languages of the two patterns, read off their text, to be compared with
  \<open>matchNode\<close> and \<open>lookahead\<close> below. The lookahead is any number of alternatives,
  each a quoted span between stretches without quote, then a last stretch without quote
  up to the end of the subject.
\<close>

definition noQuote :: "string \<Rightarrow> bool" where
  \<comment> \<open>\<^verbatim>\<open>[^"']*\<close>\<close>
  "noQuote s \<longleftrightarrow> CHR 0x22 \<notin> set s \<and> CHR 0x27 \<notin> set s"

inductive lookaheadLanguage :: "string \<Rightarrow> bool" where
  tail: "noQuote t \<Longrightarrow> lookaheadLanguage t"
| double:
    "noQuote a \<Longrightarrow> noQuote b \<Longrightarrow> noQuote c \<Longrightarrow> lookaheadLanguage r
     \<Longrightarrow> lookaheadLanguage (a @ [CHR 0x22] @ b @ [CHR 0x22] @ c @ r)"
| single:
    "noQuote a \<Longrightarrow> CHR 0x27 \<notin> set b \<Longrightarrow> noQuote c \<Longrightarrow> lookaheadLanguage r
     \<Longrightarrow> lookaheadLanguage (a @ [CHR 0x27] @ b @ [CHR 0x27] @ c @ r)"

definition nodePatternLanguage :: "string \<Rightarrow> bool" where
  \<comment> \<open>\<^verbatim>\<open>^- \{\s*([^}]+)\s*\}$\<close>, as a set of strings\<close>
  "nodePatternLanguage t \<longleftrightarrow>
     (\<exists>sp g sp'. t = ''- {'' @ sp @ g @ sp' @ ''}''
        \<and> list_all isWhiteSpace sp \<and> g \<noteq> [] \<and> CHR ''}'' \<notin> set g
        \<and> list_all isWhiteSpace sp')"

section \<open>Strings, and the guarded reads\<close>

lemma startsWith_Nil: "startsWith [] s"
  by (simp add: startsWith_def)

lemma startsWith_Cons: "startsWith (p # ps) s \<longleftrightarrow> (\<exists>r. s = p # r \<and> startsWith ps r)"
  by (cases s) (auto simp: startsWith_def)

lemma splitChar_not_Nil [simp]: "splitChar sep s \<noteq> []"
  by (induction s) (auto split: list.splits)

lemma parsePair_returns: "\<exists>ps'. parsePair ps pair = Inr ps'"
  by (simp add: parsePair_def elemAt_def Let_def)

lemma parsePairs_returns: "\<exists>ps'. parsePairs ps pairs = Inr ps'"
proof (induction pairs arbitrary: ps)
  case Nil
  show ?case by simp
next
  case (Cons pair pairs)
  obtain ps1 where "parsePair ps pair = Inr ps1"
    using parsePair_returns by blast
  with Cons.IH [of ps1] show ?case by simp
qed

lemma parseNode_returns: "\<exists>st'. parseNode st t body = Inr st'"
proof -
  obtain ps where "parsePairs [] (splitPairs [] body) = Inr ps"
    using parsePairs_returns by blast
  then show ?thesis by (simp add: parseNode_def)
qed

lemma parseLine_returns: "\<exists>st'. parseLine st line = Inr st'"
  using parseNode_returns
  by (auto simp: parseLine_def Let_def split: option.splits)

lemma parseLines_returns: "\<exists>st'. parseLines st lines = Inr st'"
proof (induction lines arbitrary: st)
  case Nil
  show ?case by simp
next
  case (Cons line lines)
  obtain st1 where "parseLine st line = Inr st1"
    using parseLine_returns by blast
  with Cons.IH [of st1] show ?case by simp
qed

text \<open>
  In the model every run returns the records: the reads \<open>parts[0]\<close> and \<open>parts[1]\<close> sit
  under the test \<open>parts.length === 2\<close>, so \<open>.trim()\<close> is never applied to a missing part.
  This says nothing of the engine's own failures while it matches the separator pattern.
\<close>

lemma parseClashNodes_returns: "\<exists>ns. parseClashNodes configContent = Inr ns"
proof -
  obtain st where "parseLines initial (splitChar CHR ''\<newline>'' configContent) = Inr st"
    using parseLines_returns by blast
  then show ?thesis by (simp add: parseClashNodes_def)
qed

lemma splitChar_append:
  assumes "sep \<notin> set a"
  shows "splitChar sep (a @ sep # b) = a # splitChar sep b"
  using assms by (induction a) auto

lemma splitChar_no_separator:
  assumes "sep \<notin> set a"
  shows "splitChar sep a = [a]"
  using assms by (induction a) auto

lemma trim_no_leading_white_space:
  assumes "trim s = c # r"
  shows "\<not> isWhiteSpace c"
proof -
  let ?d = "dropWhile isWhiteSpace s"
  have "rev (takeWhile isWhiteSpace (rev ?d) @ dropWhile isWhiteSpace (rev ?d)) = rev (rev ?d)"
    by (simp only: takeWhile_dropWhile_id)
  then have "rev (dropWhile isWhiteSpace (rev ?d)) @ rev (takeWhile isWhiteSpace (rev ?d)) = ?d"
    by (simp only: rev_append rev_rev_ident)
  then have "?d = trim s @ rev (takeWhile isWhiteSpace (rev ?d))"
    by (simp only: trim_def)
  with assms have d: "?d = c # r @ rev (takeWhile isWhiteSpace (rev ?d))"
    by simp
  then have "?d \<noteq> []"
    by (metis list.distinct(1))
  then have "\<not> isWhiteSpace (hd ?d)"
    by (rule hd_dropWhile)
  moreover have "hd ?d = c"
    using d by (metis list.sel(1))
  ultimately show ?thesis by simp
qed

section \<open>The patterns and their models\<close>

text \<open>
  \<open>matchNode\<close> succeeds exactly on the language of the record pattern, and its group is
  a part of the subject that the pattern's group can match.
\<close>

lemma matchNode_inner:
  assumes "matchNode t = Some m"
  shows "t = ''- {'' @ take (length t - 4) (drop 3 t) @ ''}''"
    and "take (length t - 4) (drop 3 t) \<noteq> []"
    and "CHR ''}'' \<notin> set (take (length t - 4) (drop 3 t))"
proof -
  from assms have len: "5 \<le> length t" and s: "startsWith ''- {'' t"
    and e: "endsWith ''}'' t"
    and nb: "CHR ''}'' \<notin> set (take (length t - 4) (drop 3 t))"
    by (simp_all add: matchNode_def Let_def split: if_splits)
  show "CHR ''}'' \<notin> set (take (length t - 4) (drop 3 t))" by (rule nb)
  show "take (length t - 4) (drop 3 t) \<noteq> []"
    using len by simp
  have a: "take 3 t = ''- {''"
    using s by (simp add: startsWith_def numeral_3_eq_3)
  have "drop (length t - 4) (drop 3 t) = drop (length t - 1) t"
    using len by simp
  then have b: "drop (length t - 4) (drop 3 t) = ''}''"
    using e by (simp add: endsWith_def)
  have "t = take 3 t @ drop 3 t"
    by (simp only: append_take_drop_id)
  moreover have "drop 3 t = take (length t - 4) (drop 3 t) @ drop (length t - 4) (drop 3 t)"
    by (simp only: append_take_drop_id)
  ultimately
  have "t = take 3 t @ take (length t - 4) (drop 3 t) @ drop (length t - 4) (drop 3 t)"
    by simp
  then show "t = ''- {'' @ take (length t - 4) (drop 3 t) @ ''}''"
    by (simp only: a b)
qed

lemma matchNode_sound:
  assumes "matchNode t = Some m"
  shows "\<exists>sp g. m = [t, g] \<and> t = ''- {'' @ sp @ g @ ''}''
           \<and> list_all isWhiteSpace sp \<and> g \<noteq> [] \<and> CHR ''}'' \<notin> set g"
proof -
  let ?inner = "take (length t - 4) (drop 3 t)"
  note i = matchNode_inner [OF assms]
  from assms have m0:
    "m = [t, (case dropWhile isWhiteSpace ?inner of [] \<Rightarrow> [last ?inner] | c # cs \<Rightarrow> c # cs)]"
    by (auto simp: matchNode_def Let_def split: if_splits)
  show ?thesis
  proof (cases "dropWhile isWhiteSpace ?inner")
    case Nil
    have m: "m = [t, [last ?inner]]"
      using m0 unfolding Nil by simp
    have all: "list_all isWhiteSpace ?inner"
      using Nil by (simp add: list_all_iff)
    have bl: "?inner = butlast ?inner @ [last ?inner]"
      using i(2) by simp
    have "list_all isWhiteSpace (butlast ?inner)"
      using all by (auto simp: list_all_iff dest: in_set_butlastD)
    moreover have "CHR ''}'' \<notin> set [last ?inner]"
      using i(2,3) last_in_set [of ?inner] by auto
    moreover have "t = ''- {'' @ butlast ?inner @ [last ?inner] @ ''}''"
      using i(1) bl by (metis append.assoc)
    ultimately show ?thesis
      using m by blast
  next
    case (Cons c cs)
    have m: "m = [t, dropWhile isWhiteSpace ?inner]"
      using m0 unfolding Cons by simp
    have "?inner = takeWhile isWhiteSpace ?inner @ dropWhile isWhiteSpace ?inner"
      by simp
    with i(1) have "t = ''- {'' @ takeWhile isWhiteSpace ?inner @ dropWhile isWhiteSpace ?inner @ ''}''"
      by (metis append.assoc)
    moreover have "list_all isWhiteSpace (takeWhile isWhiteSpace ?inner)"
      by (auto simp: list_all_iff dest: set_takeWhileD)
    moreover have "CHR ''}'' \<notin> set (dropWhile isWhiteSpace ?inner)"
      using i(3) by (auto dest: set_dropWhileD)
    moreover have "dropWhile isWhiteSpace ?inner \<noteq> []"
      using Cons by (simp only: list.distinct(2) not_False_eq_True)
    ultimately show ?thesis
      using m by blast
  qed
qed

lemma matchNode_complete:
  assumes t: "t = ''- {'' @ inner @ ''}''" and ne: "inner \<noteq> []"
    and nb: "CHR ''}'' \<notin> set inner"
  shows "matchNode t \<noteq> None"
proof -
  have "take (length t - 4) (drop 3 t) = inner"
    using t by simp
  moreover have "5 \<le> length t"
    using t ne by (cases inner) simp_all
  moreover have "startsWith ''- {'' t"
    using t by (simp add: startsWith_def)
  moreover have "endsWith ''}'' t"
    using t by (simp add: endsWith_def)
  ultimately show ?thesis
    using nb by (simp add: matchNode_def Let_def)
qed

lemma isWhiteSpace_not_brace: "isWhiteSpace c \<Longrightarrow> c \<noteq> CHR ''}''"
  by (auto simp: isWhiteSpace_def)

lemma nodePatternLanguageI:
  assumes "t = ''- {'' @ sp @ g @ sp' @ ''}''" and "list_all isWhiteSpace sp"
    and "g \<noteq> []" and "CHR ''}'' \<notin> set g" and "list_all isWhiteSpace sp'"
  shows "nodePatternLanguage t"
  unfolding nodePatternLanguage_def using assms by blast

lemma matchNode_iff_language: "matchNode t \<noteq> None \<longleftrightarrow> nodePatternLanguage t"
proof
  assume "matchNode t \<noteq> None"
  then obtain m where "matchNode t = Some m" by blast
  from matchNode_sound [OF this]
  obtain sp g where t: "t = ''- {'' @ sp @ g @ ''}''" and w: "list_all isWhiteSpace sp"
    and g: "g \<noteq> []" "CHR ''}'' \<notin> set g"
    by (elim exE conjE)
  have t0: "t = ''- {'' @ sp @ g @ [] @ ''}''"
    using t by simp
  have w0: "list_all isWhiteSpace []"
    by simp
  show "nodePatternLanguage t"
    using t0 w g w0 by (rule nodePatternLanguageI)
next
  assume "nodePatternLanguage t"
  then obtain sp g sp' where t: "t = ''- {'' @ sp @ g @ sp' @ ''}''"
    and w: "list_all isWhiteSpace sp" "list_all isWhiteSpace sp'"
    and g: "g \<noteq> []" "CHR ''}'' \<notin> set g"
    unfolding nodePatternLanguage_def by (elim exE conjE)
  have nb: "CHR ''}'' \<notin> set (sp @ g @ sp')"
    using w g(2) isWhiteSpace_not_brace by (auto simp: list_all_iff)
  have ne: "sp @ g @ sp' \<noteq> []"
    using g(1) by simp
  have t': "t = ''- {'' @ (sp @ g @ sp') @ ''}''"
    using t by simp
  show "matchNode t \<noteq> None"
    using t' ne nb by (rule matchNode_complete)
qed

text \<open>
  \<open>lookahead\<close> accepts exactly the language of the lookahead, and white space before
  the remainder does not change its answer: giving white space back to \<open>\s*\<close> cannot
  turn a failed separator match into a successful one.
\<close>

lemma lookahead_noQuote:
  assumes "noQuote a"
  shows "lookahead Outside (a @ r) = lookahead Outside r"
  using assms by (induction a) (auto simp: noQuote_def)

lemma lookahead_InDouble:
  assumes "noQuote b"
  shows "lookahead InDouble (b @ CHR 0x22 # r) = lookahead Outside r"
  using assms by (induction b) (auto simp: noQuote_def)

lemma lookahead_InSingle:
  assumes "CHR 0x27 \<notin> set b"
  shows "lookahead InSingle (b @ CHR 0x27 # r) = lookahead Outside r"
  using assms by (induction b) auto

lemma lookaheadLanguage_accepted:
  assumes "lookaheadLanguage s"
  shows "lookahead Outside s"
  using assms
proof (induction rule: lookaheadLanguage.induct)
  case (tail t)
  then show ?case
    using lookahead_noQuote [of t "[]"] by simp
next
  case (double a b c r)
  then show ?case
    by (simp add: lookahead_noQuote lookahead_InDouble)
next
  case (single a b c r)
  then show ?case
    by (simp add: lookahead_noQuote lookahead_InSingle)
qed

lemma lookaheadLanguage_Cons:
  assumes "lookaheadLanguage s" and "c \<noteq> CHR 0x22" and "c \<noteq> CHR 0x27"
  shows "lookaheadLanguage (c # s)"
  using assms(1)
proof (cases rule: lookaheadLanguage.cases)
  case tail
  then show ?thesis
    using assms(2,3) by (simp add: noQuote_def lookaheadLanguage.tail)
next
  case (double a b c' r)
  have "noQuote (c # a)"
    using double(2) assms(2,3) by (simp add: noQuote_def)
  from lookaheadLanguage.double [OF this double(3,4,5)] double(1)
  show ?thesis by simp
next
  case (single a b c' r)
  have "noQuote (c # a)"
    using single(2) assms(2,3) by (simp add: noQuote_def)
  from lookaheadLanguage.single [OF this single(3,4,5)] single(1)
  show ?thesis by simp
qed

lemma noQuote_Nil: "noQuote []"
  by (simp add: noQuote_def)

lemma lookahead_in_language:
  "lookahead q s \<Longrightarrow>
     (case q of
        Outside \<Rightarrow> lookaheadLanguage s
      | InDouble \<Rightarrow> (\<exists>b r. s = b @ CHR 0x22 # r \<and> noQuote b \<and> lookaheadLanguage r)
      | InSingle \<Rightarrow> (\<exists>b r. s = b @ CHR 0x27 # r \<and> CHR 0x27 \<notin> set b \<and> lookaheadLanguage r))"
proof (induction q s rule: lookahead.induct)
  case (1 q)
  then show ?case
    by (cases q) (simp_all add: lookaheadLanguage.tail noQuote_Nil)
next
  case (2 c cs)
  show ?case
  proof (cases "c = CHR 0x22")
    case True
    with 2 obtain b r where "cs = b @ CHR 0x22 # r" "noQuote b" "lookaheadLanguage r"
      by auto
    with lookaheadLanguage.double [OF noQuote_Nil this(2) noQuote_Nil this(3)] True
    show ?thesis by simp
  next
    case nd: False
    show ?thesis
    proof (cases "c = CHR 0x27")
      case True
      with 2 nd obtain b r where "cs = b @ CHR 0x27 # r" "CHR 0x27 \<notin> set b" "lookaheadLanguage r"
        by auto
      with lookaheadLanguage.single [OF noQuote_Nil this(2) noQuote_Nil this(3)] True
      show ?thesis by simp
    next
      case False
      with 2 nd have "lookaheadLanguage cs" by simp
      then show ?thesis
        using nd False by (simp add: lookaheadLanguage_Cons)
    qed
  qed
next
  case (3 c cs)
  show ?case
  proof (cases "c = CHR 0x22")
    case True
    with 3 have "lookaheadLanguage cs" by simp
    then have "c # cs = [] @ CHR 0x22 # cs \<and> noQuote [] \<and> lookaheadLanguage cs"
      using True by (simp add: noQuote_Nil)
    then show ?thesis by (simp only: quoting.case) blast
  next
    case nd: False
    with 3 have ns: "c \<noteq> CHR 0x27" by (auto split: if_splits)
    with 3 nd obtain b r where "cs = b @ CHR 0x22 # r" "noQuote b" "lookaheadLanguage r"
      by auto
    then have "c # cs = (c # b) @ CHR 0x22 # r \<and> noQuote (c # b) \<and> lookaheadLanguage r"
      using nd ns by (simp add: noQuote_def)
    then show ?thesis by (simp only: quoting.case) blast
  qed
next
  case (4 c cs)
  show ?case
  proof (cases "c = CHR 0x27")
    case True
    with 4 have "lookaheadLanguage cs" by simp
    then have "c # cs = [] @ CHR 0x27 # cs \<and> CHR 0x27 \<notin> set [] \<and> lookaheadLanguage cs"
      using True by simp
    then show ?thesis by (simp only: quoting.case) blast
  next
    case False
    with 4 obtain b r where "cs = b @ CHR 0x27 # r" "CHR 0x27 \<notin> set b" "lookaheadLanguage r"
      by auto
    then have "c # cs = (c # b) @ CHR 0x27 # r \<and> CHR 0x27 \<notin> set (c # b) \<and> lookaheadLanguage r"
      using False by simp
    then show ?thesis by (simp only: quoting.case) blast
  qed
qed

lemma lookahead_iff_language: "lookahead Outside s \<longleftrightarrow> lookaheadLanguage s"
  using lookahead_in_language [of Outside s] lookaheadLanguage_accepted [of s]
  by auto

lemma isWhiteSpace_noQuote:
  assumes "list_all isWhiteSpace w"
  shows "noQuote w"
  using assms by (induction w) (auto simp: noQuote_def isWhiteSpace_def)

lemma lookahead_after_white_space:
  assumes "list_all isWhiteSpace w"
  shows "lookahead Outside (w @ r) = lookahead Outside r"
  using assms by (simp add: isWhiteSpace_noQuote lookahead_noQuote)

section \<open>Property mappings\<close>

lemma map_of_assign: "map_of (assign ps k v) k' = (if k' = k then Some v else map_of ps k')"
  by (induction ps) auto

lemma getProp_setProp:
  "getProp (setProp ps k v) k' =
     (if k = ''__proto__'' then getProp ps k'
      else if k' = k then Some v else getProp ps k')"
  by (simp add: getProp_def setProp_def map_of_assign)

lemma convertType_Num: "convertType key v = Num x \<Longrightarrow> key = ''port''"
  by (simp add: convertType_def split: if_splits)

lemma numbersOnlyAtPort_setProp:
  assumes "numbersOnlyAtPort ps"
  shows "numbersOnlyAtPort (setProp ps key (convertType key v))"
  using assms convertType_Num
  by (auto simp: numbersOnlyAtPort_def setProp_def map_of_assign)

lemma numbersOnlyAtPort_parsePair:
  assumes "numbersOnlyAtPort ps" and "parsePair ps pair = Inr ps'"
  shows "numbersOnlyAtPort ps'"
  using assms numbersOnlyAtPort_setProp
  by (auto simp: parsePair_def Let_def split: if_splits option.splits)

lemma numbersOnlyAtPort_parsePairs:
  assumes "numbersOnlyAtPort ps" and "parsePairs ps pairs = Inr ps'"
  shows "numbersOnlyAtPort ps'"
  using assms
proof (induction pairs arbitrary: ps)
  case Nil
  then show ?case by simp
next
  case (Cons pair pairs)
  obtain ps1 where p1: "parsePair ps pair = Inr ps1"
    using parsePair_returns by blast
  then have "numbersOnlyAtPort ps1"
    using Cons.prems(1) numbersOnlyAtPort_parsePair by blast
  moreover have "parsePairs ps1 pairs = Inr ps'"
    using Cons.prems(2) p1 by simp
  ultimately show ?case by (rule Cons.IH)
qed

lemma numbersOnlyAtPort_Nil: "numbersOnlyAtPort []"
  by (simp add: numbersOnlyAtPort_def)

lemma nonEmptyField_truthy:
  assumes "numbersOnlyAtPort ps" and "k \<noteq> ''port''"
  shows "nonEmptyField ps k \<longleftrightarrow> truthy (getProp ps k)"
proof (cases "map_of ps k")
  case None
  then show ?thesis by (simp add: nonEmptyField_def getProp_def)
next
  case (Some v)
  show ?thesis
  proof (cases v)
    case (Num x)
    with Some assms have False by (auto simp: numbersOnlyAtPort_def)
    then show ?thesis ..
  qed (simp_all add: Some nonEmptyField_def getProp_def)
qed

lemma requiredFields_isComplete:
  assumes "numbersOnlyAtPort ps"
  shows "requiredFields ps \<longleftrightarrow> isComplete ps"
  using assms
  by (simp add: requiredFields_def isComplete_def nonEmptyField_truthy getProp_def)

lemma Number_empty: "Number [] = Finite 0"
  by (simp add: Number_def trim_def)

lemma convertType_port_empty: "convertType ''port'' [] = Num (Finite 0)"
  by (simp add: convertType_def Number_empty isNaN_def)

section \<open>The scanner state\<close>

lemma parseNode_nodes:
  assumes "parseNode st t body = Inr st'"
  shows "inProxiesSection st' = inProxiesSection st
         \<and> (nodes st' = nodes st \<or> (\<exists>ps. nodes st' = nodes st @ [ps] \<and> requiredFields ps))"
proof -
  obtain ps where ps: "parsePairs [] (splitPairs [] body) = Inr ps"
    using parsePairs_returns by blast
  then have "numbersOnlyAtPort ps"
    using numbersOnlyAtPort_Nil numbersOnlyAtPort_parsePairs by blast
  then have "requiredFields ps \<longleftrightarrow> isComplete ps"
    by (rule requiredFields_isComplete)
  with assms ps show ?thesis
    by (auto simp: parseNode_def split: if_splits)
qed

lemma parseLine_nodes:
  assumes "parseLine st line = Inr st'"
  shows "nodes st' = nodes st \<or> (\<exists>ps. nodes st' = nodes st @ [ps] \<and> requiredFields ps)"
  using assms parseNode_nodes
  by (auto simp: parseLine_def Let_def split: if_splits option.splits)

lemma parseLines_nodes:
  assumes "parseLines st lines = Inr st'" and "\<forall>n \<in> set (nodes st). requiredFields n"
  shows "\<forall>n \<in> set (nodes st'). requiredFields n"
  using assms
proof (induction lines arbitrary: st)
  case Nil
  then show ?case by simp
next
  case (Cons line lines)
  obtain st1 where s1: "parseLine st line = Inr st1"
    using parseLine_returns by blast
  then have "\<forall>n \<in> set (nodes st1). requiredFields n"
    using parseLine_nodes [OF s1] Cons.prems(2) by auto
  moreover have "parseLines st1 lines = Inr st'"
    using Cons.prems(1) s1 by simp
  ultimately show ?case using Cons.IH by blast
qed

lemma parseLine_outside:
  assumes "\<not> inProxiesSection st" and "\<not> startsWith ''proxies:'' (trim line)"
  shows "parseLine st line = Inr st"
  using assms by (simp add: parseLine_def Let_def)

lemma parseLines_outside:
  assumes "\<not> inProxiesSection st"
    and "\<forall>line \<in> set lines. \<not> startsWith ''proxies:'' (trim line)"
  shows "parseLines st lines = Inr st"
  using assms
proof (induction lines)
  case Nil
  show ?case by simp
next
  case (Cons line lines)
  then have "parseLine st line = Inr st"
    by (simp add: parseLine_outside)
  with Cons show ?case by simp
qed

lemma matchNode_startsWith:
  assumes "matchNode t = Some m"
  shows "startsWith ''- {'' t"
  using assms by (simp add: matchNode_def Let_def split: if_splits)

lemma record_line_no_boundary:
  assumes "startsWith ''- {'' t"
  shows "\<not> startsWith ''proxies:'' t" and "\<not> leavesSection t"
  using assms by (auto simp: startsWith_Cons startsWith_Nil leavesSection_def)

lemma incomplete_line_step:
  assumes m: "matchNode (trim line) = Some [whole, body]"
    and ps: "parsePairs [] (splitPairs [] body) = Inr ps"
    and inc: "\<not> isComplete ps"
  shows "\<exists>st'. parseLine st line = Inr st'
           \<and> nodes st' = nodes st \<and> inProxiesSection st' = inProxiesSection st"
proof -
  have d: "startsWith ''- {'' (trim line)"
    using m by (rule matchNode_startsWith)
  have "parseNode st (trim line) body
          = Inr (st\<lparr>warnings := warnings st @ [(ps, trim line)]\<rparr>)"
    using ps inc by (simp add: parseNode_def)
  then show ?thesis
    using m record_line_no_boundary [OF d]
    by (simp add: parseLine_def Let_def elemAt_def)
qed

lemma parseNode_cong:
  assumes "inProxiesSection a = inProxiesSection b" and "nodes a = nodes b"
    and "parseNode a t body = Inr a'"
  shows "\<exists>b'. parseNode b t body = Inr b'
           \<and> inProxiesSection a' = inProxiesSection b' \<and> nodes a' = nodes b'"
proof -
  obtain ps where "parsePairs [] (splitPairs [] body) = Inr ps"
    using parsePairs_returns by blast
  with assms show ?thesis
    by (auto simp: parseNode_def split: if_splits)
qed

lemma parseLine_cong:
  assumes "inProxiesSection a = inProxiesSection b" and "nodes a = nodes b"
    and "parseLine a line = Inr a'"
  shows "\<exists>b'. parseLine b line = Inr b'
           \<and> inProxiesSection a' = inProxiesSection b' \<and> nodes a' = nodes b'"
  using assms parseNode_cong [OF assms(1,2)]
  by (auto simp: parseLine_def Let_def split: if_splits option.splits)

lemma parseLines_cong:
  assumes "inProxiesSection a = inProxiesSection b" and "nodes a = nodes b"
    and "parseLines a lines = Inr a'"
  shows "\<exists>b'. parseLines b lines = Inr b' \<and> nodes a' = nodes b'"
  using assms
proof (induction lines arbitrary: a b)
  case Nil
  then show ?case by simp
next
  case (Cons line lines)
  obtain a1 where a1: "parseLine a line = Inr a1"
    using parseLine_returns by blast
  obtain b1 where b1: "parseLine b line = Inr b1"
    and eq: "inProxiesSection a1 = inProxiesSection b1" "nodes a1 = nodes b1"
    using parseLine_cong [OF Cons.prems(1,2) a1] by blast
  have "parseLines a1 lines = Inr a'"
    using Cons.prems(3) a1 by simp
  from Cons.IH [OF eq this] b1 show ?case by simp
qed

lemma parseLines_append:
  "parseLines st (xs @ ys) =
     (case parseLines st xs of Inl e \<Rightarrow> Inl e | Inr st' \<Rightarrow> parseLines st' ys)"
proof (induction xs arbitrary: st)
  case Nil
  show ?case by simp
next
  case (Cons x xs)
  then show ?case by (simp split: sum.splits)
qed

lemma leavesSection_trim:
  "leavesSection (trim line) \<longleftrightarrow>
     \<not> startsWith ''-'' (trim line) \<and> trim line \<noteq> [] \<and> \<not> startsWith ''#'' (trim line)
     \<and> includesChar CHR '':'' (trim line)"
proof -
  have "\<not> startsWith '' '' (trim line)"
    using trim_no_leading_white_space [of line]
    by (auto simp: startsWith_Cons isWhiteSpace_def)
  then show ?thesis
    by (auto simp: leavesSection_def)
qed

lemma parseLine_ignores_indentation:
  assumes "trim line = trim line'"
  shows "parseLine st line = parseLine st line'"
  using assms by (simp add: parseLine_def)

lemma header_with_text_enters_section:
  "parseLine st ''proxies: []'' = Inr (st\<lparr>inProxiesSection := True\<rparr>)"
  by (simp add: parseLine_def trim_def isWhiteSpace_def startsWith_def)

section \<open>The claims\<close>

text \<open>
  C1. Each comma segment is to be split on its first colon only, so that the value keeps
  every later colon. The code calls \<open>pair.split(':', 2)\<close>, which splits at every colon and
  keeps the first two parts: the value ends at the second colon, against the comment on
  that line. An IPv6 server address and a URL are both cut.
\<close>

theorem value_cut_at_second_colon:
  "parseClashNodes
     ''proxies:\<newline>  - { name: a, type: ss, server: 2001:db8::1, port: 443, url: https://example.com:8443/x }''
   = Inr [[(''name'', Str ''a''), (''type'', Str ''ss''), (''server'', Str ''2001''),
           (''port'', Num (Finite 443)), (''url'', Str ''https'')]]"
  by code_simp

text \<open>In general, whatever follows the second colon of a segment has no effect.\<close>

lemma parsePair_second_colon:
  assumes "CHR '':'' \<notin> set k" and "CHR '':'' \<notin> set v"
  shows "parsePair ps (k @ '':'' @ v @ '':'' @ rest) = parsePair ps (k @ '':'' @ v)"
proof -
  have "splitCharLimit CHR '':'' 2 (k @ '':'' @ v @ '':'' @ rest) = [k, v]"
    using assms by (simp add: splitCharLimit_def splitChar_append)
  moreover have "splitCharLimit CHR '':'' 2 (k @ '':'' @ v) = [k, v]"
    using assms by (simp add: splitCharLimit_def splitChar_append splitChar_no_separator)
  ultimately show ?thesis
    by (simp add: parsePair_def)
qed

text \<open>
  C2. Inside the section, an indented line is to keep the scanner inside. The code tests
  \<open>trimmedLine.startsWith(' ')\<close>, which no trimmed line satisfies (\<open>leavesSection_trim\<close>),
  so the indentation of the original line is never looked at
  (\<open>parseLine_ignores_indentation\<close>): the indented \<open>type: ss\<close> of a record written over
  several lines leaves the section, and the record after it is lost.
\<close>

theorem indented_key_leaves_section:
  "parseLine (initial\<lparr>inProxiesSection := True\<rparr>) ''    type: ss''
     = Inr (initial\<lparr>inProxiesSection := False\<rparr>)
   \<and> parseClashNodes
       ''proxies:\<newline>  - name: a\<newline>    type: ss\<newline>  - { name: b, type: ss, server: h, port: 443 }''
     = Inr []"
  by code_simp

text \<open>
  C3, as amended. A pair whose key is \<open>port\<close> and whose value is empty after quote
  stripping is not rejected: the empty string converts to the number 0, which is stored,
  and the check on \<open>port\<close> accepts every defined value, so that the mapping is complete
  exactly when \<open>name\<close>, \<open>type\<close> and \<open>server\<close> are truthy.
\<close>

theorem empty_port_becomes_zero:
  assumes "splitCharLimit CHR '':'' 2 pair = [k, v]"
    and "trim k = ''port''" and "stripQuotes (trim v) = []"
  shows "parsePair ps pair = Inr (setProp ps ''port'' (Num (Finite 0)))
         \<and> getProp (setProp ps ''port'' (Num (Finite 0))) ''port'' = Some (Num (Finite 0))
         \<and> (isComplete (setProp ps ''port'' x) \<longleftrightarrow>
              truthy (getProp ps ''name'') \<and> truthy (getProp ps ''type'')
              \<and> truthy (getProp ps ''server''))"
proof (intro conjI)
  show "parsePair ps pair = Inr (setProp ps ''port'' (Num (Finite 0)))"
    using assms by (simp add: parsePair_def elemAt_def convertType_port_empty)
  show "getProp (setProp ps ''port'' (Num (Finite 0))) ''port'' = Some (Num (Finite 0))"
    by (simp add: getProp_setProp)
  show "isComplete (setProp ps ''port'' x) \<longleftrightarrow>
          truthy (getProp ps ''name'') \<and> truthy (getProp ps ''type'')
          \<and> truthy (getProp ps ''server'')"
    by (simp add: isComplete_def getProp_setProp)
qed

theorem empty_port_becomes_zero_witness:
  "splitCharLimit CHR '':'' 2 ''port: \"\"'' = [''port'', '' \"\"'']
   \<and> trim ''port'' = ''port'' \<and> stripQuotes (trim '' \"\"'') = []
   \<and> parsePair [(''name'', Str ''a''), (''type'', Str ''ss''), (''server'', Str ''h'')] ''port: \"\"''
       = Inr (setProp [(''name'', Str ''a''), (''type'', Str ''ss''), (''server'', Str ''h'')]
                ''port'' (Num (Finite 0)))
   \<and> isComplete (setProp [(''name'', Str ''a''), (''type'', Str ''ss''), (''server'', Str ''h'')]
                    ''port'' (Str []))"
proof -
  have h1: "splitCharLimit CHR '':'' 2 ''port: \"\"'' = [''port'', '' \"\"'']"
    by code_simp
  have h2: "trim ''port'' = ''port''"
    by code_simp
  have h3: "stripQuotes (trim '' \"\"'') = []"
    by code_simp
  have h4: "truthy (getProp [(''name'', Str ''a''), (''type'', Str ''ss''), (''server'', Str ''h'')] ''name'')
      \<and> truthy (getProp [(''name'', Str ''a''), (''type'', Str ''ss''), (''server'', Str ''h'')] ''type'')
      \<and> truthy (getProp [(''name'', Str ''a''), (''type'', Str ''ss''), (''server'', Str ''h'')] ''server'')"
    by code_simp
  from h1 h2 h3 h4
    empty_port_becomes_zero [OF h1 h2 h3,
      of "[(''name'', Str ''a''), (''type'', Str ''ss''), (''server'', Str ''h'')]" "Str []"]
  show ?thesis by blast
qed

text \<open>
  C3 as first stated fails: a record line with \<open>port: ""\<close> yields a record, with port 0;
  and the check itself accepts a mapping whose \<open>port\<close> is the empty string.
\<close>

theorem empty_port_counterexample:
  "parseClashNodes ''proxies:\<newline>  - { name: a, type: ss, server: h, port: \"\" }''
     = Inr [[(''name'', Str ''a''), (''type'', Str ''ss''), (''server'', Str ''h''),
             (''port'', Num (Finite 0))]]
   \<and> isComplete [(''name'', Str ''a''), (''type'', Str ''ss''), (''server'', Str ''h''),
                  (''port'', Str [])]"
  by code_simp

text \<open>
  C4. For \<open>port: "true"\<close> the numeric rule comes first and fails, since \<open>true\<close> is no
  number; the boolean rule then applies. The pair is kept, with the boolean \<open>true\<close>.
\<close>

theorem coercion_precedence:
  "isNaN (Number ''true'')
   \<and> parsePairs [] (splitPairs [] ''name: n, type: t, server: s, port: \"true\"'')
       = Inr [(''name'', Str ''n''), (''type'', Str ''t''), (''server'', Str ''s''),
              (''port'', Bool True)]
   \<and> parseClashNodes ''proxies:\<newline>  - { name: n, type: t, server: s, port: \"true\" }''
       = Inr [[(''name'', Str ''n''), (''type'', Str ''t''), (''server'', Str ''s''),
               (''port'', Bool True)]]"
  by code_simp

text \<open>
  C5. The comma inside the quoted name does not separate: the body has four pairs, and
  the name is \<open>a, b\<close>.
\<close>

theorem quote_aware_split:
  "splitPairs [] ''name: \"a, b\", type: x, server: y, port: 1''
     = [''name: \"a, b\"'', ''type: x'', ''server: y'', ''port: 1'']
   \<and> length (splitPairs [] ''name: \"a, b\", type: x, server: y, port: 1'') = 4
   \<and> parsePairs [] (splitPairs [] ''name: \"a, b\", type: x, server: y, port: 1'')
       = Inr [(''name'', Str ''a, b''), (''type'', Str ''x''), (''server'', Str ''y''),
              (''port'', Num (Finite 1))]"
  by code_simp

text \<open>
  C6. The scenario of five lines yields the records A and B, in this order, with numeric
  ports 443 and 8443; the line under \<open>proxy-groups:\<close> yields none.
\<close>

theorem concrete_scenario:
  "parseClashNodes
     ''proxies:\<newline>  - { name: \"A\", type: ss, server: 1.2.3.4, port: 443, cipher: aes-256-gcm }\<newline>  - { name: \"B\", type: vmess, server: b.example.com, port: \"8443\", tls: true }\<newline>proxy-groups:\<newline>  - { name: \"Auto\", type: select }''
   = Inr [[(''name'', Str ''A''), (''type'', Str ''ss''), (''server'', Str ''1.2.3.4''),
           (''port'', Num (Finite 443)), (''cipher'', Str ''aes-256-gcm'')],
          [(''name'', Str ''B''), (''type'', Str ''vmess''), (''server'', Str ''b.example.com''),
           (''port'', Num (Finite 8443)), (''tls'', Bool True)]]"
  by code_simp

text \<open>
  C7, as amended. A document in which no line has a trimmed text that starts with
  \<open>proxies:\<close> yields no record. The scanner enters the section on every line whose trimmed
  text starts with \<open>proxies:\<close>, whatever follows on that line.
\<close>

theorem no_header_no_nodes:
  assumes "\<forall>line \<in> set (splitChar CHR ''\<newline>'' configContent).
             \<not> startsWith ''proxies:'' (trim line)"
  shows "parseClashNodes configContent = Inr []"
proof -
  have "\<not> inProxiesSection initial"
    by (simp add: initial_def)
  then have "parseLines initial (splitChar CHR ''\<newline>'' configContent) = Inr initial"
    using assms by (rule parseLines_outside)
  then show ?thesis
    by (simp add: parseClashNodes_def initial_def)
qed

theorem no_header_no_nodes_witness:
  "list_all (\<lambda>line. \<not> startsWith ''proxies:'' (trim line))
     (splitChar CHR ''\<newline>'' ''port: 7890\<newline>  - { name: a, type: ss, server: h, port: 1 }'')
   \<and> parseClashNodes ''port: 7890\<newline>  - { name: a, type: ss, server: h, port: 1 }'' = Inr []"
proof -
  have h: "list_all (\<lambda>line. \<not> startsWith ''proxies:'' (trim line))
     (splitChar CHR ''\<newline>'' ''port: 7890\<newline>  - { name: a, type: ss, server: h, port: 1 }'')"
    by code_simp
  then have "\<forall>line \<in> set (splitChar CHR ''\<newline>''
        ''port: 7890\<newline>  - { name: a, type: ss, server: h, port: 1 }'').
      \<not> startsWith ''proxies:'' (trim line)"
    by (simp only: list_all_iff)
  then have "parseClashNodes ''port: 7890\<newline>  - { name: a, type: ss, server: h, port: 1 }'' = Inr []"
    by (rule no_header_no_nodes)
  with h show ?thesis by (rule conjI)
qed

text \<open>
  C7 as first stated fails, a header line being a line whose trimmed text equals
  \<open>proxies:\<close>: the document below has no such line, and yields a record, since its first
  line starts with \<open>proxies:\<close>.
\<close>

theorem header_equality_counterexample:
  "splitChar CHR ''\<newline>'' ''proxies: []\<newline>- { name: v, type: ss, server: h, port: 1 }''
     = [''proxies: []'', ''- { name: v, type: ss, server: h, port: 1 }'']
   \<and> trim ''proxies: []'' \<noteq> ''proxies:''
   \<and> trim ''- { name: v, type: ss, server: h, port: 1 }'' \<noteq> ''proxies:''
   \<and> parseClashNodes ''proxies: []\<newline>- { name: v, type: ss, server: h, port: 1 }''
       = Inr [[(''name'', Str ''v''), (''type'', Str ''ss''), (''server'', Str ''h''),
               (''port'', Num (Finite 1))]]"
  by code_simp

text \<open>
  C8. Every record of the result has a non-empty \<open>name\<close>, \<open>type\<close> and \<open>server\<close> and a
  defined \<open>port\<close>; and a mapping without them is not added to the records.
\<close>

theorem emitted_nodes_have_required_fields:
  "(parseClashNodes configContent = Inr ns \<longrightarrow> (\<forall>n \<in> set ns. requiredFields n))
   \<and> (parsePairs [] (splitPairs [] body) = Inr ps \<and> \<not> requiredFields ps
        \<longrightarrow> (\<exists>st'. parseNode st trimmedLine body = Inr st' \<and> nodes st' = nodes st))"
proof (intro conjI impI)
  assume r: "parseClashNodes configContent = Inr ns"
  obtain st1 where s1: "parseLines initial (splitChar CHR ''\<newline>'' configContent) = Inr st1"
    using parseLines_returns by blast
  have "\<forall>n \<in> set (nodes initial). requiredFields n"
    by (simp add: initial_def)
  with s1 have "\<forall>n \<in> set (nodes st1). requiredFields n"
    by (rule parseLines_nodes)
  moreover have "ns = nodes st1"
    using r s1 by (simp add: parseClashNodes_def)
  ultimately show "\<forall>n \<in> set ns. requiredFields n" by simp
next
  assume a: "parsePairs [] (splitPairs [] body) = Inr ps \<and> \<not> requiredFields ps"
  then have "numbersOnlyAtPort ps"
    using numbersOnlyAtPort_Nil numbersOnlyAtPort_parsePairs by blast
  then have "\<not> isComplete ps"
    using a requiredFields_isComplete by blast
  with a show "\<exists>st'. parseNode st trimmedLine body = Inr st' \<and> nodes st' = nodes st"
    by (simp add: parseNode_def)
qed

theorem emitted_nodes_have_required_fields_witness:
  "parseClashNodes ''proxies:\<newline>- { name: a, type: ss, server: h, port: 0 }\<newline>- { name: b }''
     = Inr [[(''name'', Str ''a''), (''type'', Str ''ss''), (''server'', Str ''h''),
             (''port'', Num (Finite 0))]]
   \<and> requiredFields [(''name'', Str ''a''), (''type'', Str ''ss''), (''server'', Str ''h''),
                      (''port'', Num (Finite 0))]
   \<and> parsePairs [] (splitPairs [] ''name: b '') = Inr [(''name'', Str ''b'')]
   \<and> \<not> requiredFields [(''name'', Str ''b'')]
   \<and> (\<exists>st'. parseNode initial ''- { name: b }'' ''name: b '' = Inr st'
              \<and> nodes st' = nodes initial)"
proof -
  have h1: "parseClashNodes ''proxies:\<newline>- { name: a, type: ss, server: h, port: 0 }\<newline>- { name: b }''
     = Inr [[(''name'', Str ''a''), (''type'', Str ''ss''), (''server'', Str ''h''),
             (''port'', Num (Finite 0))]]"
    by code_simp
  have h2: "parsePairs [] (splitPairs [] ''name: b '') = Inr [(''name'', Str ''b'')]"
    by code_simp
  have h3: "\<not> requiredFields [(''name'', Str ''b'')]"
    by code_simp
  from h1 h2 h3
    emitted_nodes_have_required_fields
      [of "''proxies:\<newline>- { name: a, type: ss, server: h, port: 0 }\<newline>- { name: b }''"
          "[[(''name'', Str ''a''), (''type'', Str ''ss''), (''server'', Str ''h''),
             (''port'', Num (Finite 0))]]"
          "''name: b ''" "[(''name'', Str ''b'')]" initial "''- { name: b }''"]
  show ?thesis by simp
qed

text \<open>
  C9. A record line whose mapping lacks a required field adds no record and leaves the
  scanner where it was, in whatever state it is met; the document yields the records that
  it yields without that line.
\<close>

theorem incomplete_record_is_local:
  assumes doc: "splitChar CHR ''\<newline>'' configContent = earlier @ line # later"
    and doc': "splitChar CHR ''\<newline>'' configContent' = earlier @ later"
    and m: "matchNode (trim line) = Some [whole, body]"
    and ps: "parsePairs [] (splitPairs [] body) = Inr ps"
    and inc: "\<not> requiredFields ps"
  shows "(\<exists>st'. parseLine st line = Inr st'
            \<and> nodes st' = nodes st \<and> inProxiesSection st' = inProxiesSection st)
         \<and> parseClashNodes configContent = parseClashNodes configContent'"
proof
  have "numbersOnlyAtPort ps"
    using ps numbersOnlyAtPort_Nil numbersOnlyAtPort_parsePairs by blast
  then have inc': "\<not> isComplete ps"
    using inc requiredFields_isComplete by blast
  show "\<exists>st'. parseLine st line = Inr st'
            \<and> nodes st' = nodes st \<and> inProxiesSection st' = inProxiesSection st"
    using m ps inc' by (rule incomplete_line_step)
  obtain s1 where s1: "parseLines initial earlier = Inr s1"
    using parseLines_returns by blast
  obtain s2 where s2: "parseLine s1 line = Inr s2"
    and eq: "nodes s2 = nodes s1" "inProxiesSection s2 = inProxiesSection s1"
    using incomplete_line_step [OF m ps inc'] by blast
  obtain s3 where s3: "parseLines s2 later = Inr s3"
    using parseLines_returns by blast
  obtain s3' where s3': "parseLines s1 later = Inr s3'" and n: "nodes s3 = nodes s3'"
    using parseLines_cong [OF eq(2) eq(1) s3] by blast
  have "parseLines initial (earlier @ line # later) = Inr s3"
    using s1 s2 s3 by (simp add: parseLines_append)
  moreover have "parseLines initial (earlier @ later) = Inr s3'"
    using s1 s3' by (simp add: parseLines_append)
  ultimately show "parseClashNodes configContent = parseClashNodes configContent'"
    using n by (simp add: parseClashNodes_def doc doc')
qed

theorem incomplete_record_is_local_witness:
  "splitChar CHR ''\<newline>'' ''proxies:\<newline>- { name: a, port: 1 }\<newline>- { name: b, type: ss, server: h, port: 2 }''
     = [''proxies:''] @ ''- { name: a, port: 1 }'' # [''- { name: b, type: ss, server: h, port: 2 }'']
   \<and> splitChar CHR ''\<newline>'' ''proxies:\<newline>- { name: b, type: ss, server: h, port: 2 }''
     = [''proxies:''] @ [''- { name: b, type: ss, server: h, port: 2 }'']
   \<and> matchNode (trim ''- { name: a, port: 1 }'') = Some [''- { name: a, port: 1 }'', ''name: a, port: 1 '']
   \<and> parsePairs [] (splitPairs [] ''name: a, port: 1 '')
       = Inr [(''name'', Str ''a''), (''port'', Num (Finite 1))]
   \<and> \<not> requiredFields [(''name'', Str ''a''), (''port'', Num (Finite 1))]
   \<and> (\<exists>st'. parseLine (initial\<lparr>inProxiesSection := True\<rparr>) ''- { name: a, port: 1 }'' = Inr st'
          \<and> nodes st' = nodes (initial\<lparr>inProxiesSection := True\<rparr>)
          \<and> inProxiesSection st' = inProxiesSection (initial\<lparr>inProxiesSection := True\<rparr>))
   \<and> parseClashNodes ''proxies:\<newline>- { name: a, port: 1 }\<newline>- { name: b, type: ss, server: h, port: 2 }''
     = parseClashNodes ''proxies:\<newline>- { name: b, type: ss, server: h, port: 2 }''"
proof -
  have h1: "splitChar CHR ''\<newline>'' ''proxies:\<newline>- { name: a, port: 1 }\<newline>- { name: b, type: ss, server: h, port: 2 }''
     = [''proxies:''] @ ''- { name: a, port: 1 }'' # [''- { name: b, type: ss, server: h, port: 2 }'']"
    by code_simp
  have h2: "splitChar CHR ''\<newline>'' ''proxies:\<newline>- { name: b, type: ss, server: h, port: 2 }''
     = [''proxies:''] @ [''- { name: b, type: ss, server: h, port: 2 }'']"
    by code_simp
  have h3: "matchNode (trim ''- { name: a, port: 1 }'') = Some [''- { name: a, port: 1 }'', ''name: a, port: 1 '']"
    by code_simp
  have h4: "parsePairs [] (splitPairs [] ''name: a, port: 1 '')
       = Inr [(''name'', Str ''a''), (''port'', Num (Finite 1))]"
    by code_simp
  have h5: "\<not> requiredFields [(''name'', Str ''a''), (''port'', Num (Finite 1))]"
    by code_simp
  from h1 h2 h3 h4 h5
    incomplete_record_is_local [OF h1 h2 h3 h4 h5, of "initial\<lparr>inProxiesSection := True\<rparr>"]
  show ?thesis by blast
qed

end
